theory Spec2Isabelle
  imports Complex_Main
begin

section \<open>BTC market regime detection: the script's data pipeline\<close>

text \<open>
  The development follows \<^verbatim>\<open>src/btc_regime_detection.py\<close> section by section:
  the chunked download, the clean-up of the concatenated frame, the feature columns,
  the call of the trainer and the decoder, and the per-regime summary table.

  Conventions of the embedding.
  \<^item> A \<^verbatim>\<open>datetime\<close> is its number of microseconds on the time line (an \<open>int\<close>), a
    \<^verbatim>\<open>timedelta\<close> a number of microseconds. Python's \<^verbatim>\<open>datetime\<close> arithmetic is exact
    integer arithmetic on that scale; its range limit (year 9999) is not modelled, the
    script takes \<^verbatim>\<open>end_date\<close> from the clock.
  \<^item> A float is a value of type \<open>fl\<close>: a finite real, one of the two infinities, or NaN.
    Division by zero, the propagation of NaN and the arithmetic of the infinities are
    those of IEEE 754; rounding, overflow of finite results and the sign of zero are
    not modelled (finite results are exact reals).
  \<^item> A data frame is the list of its rows, in index order; a row is a record of its
    columns, the index (the bar's timestamp) among them.
  \<^item> \<^verbatim>\<open>yf.download\<close>, \<^verbatim>\<open>GaussianHMM.fit\<close> and \<^verbatim>\<open>GaussianHMM.predict\<close> are library
    code outside the repository: the downloaded frames are an input of the model, the
    trainer and the decoder are parameters of it, each returning a result or the
    exception it raised.
\<close>

subsection \<open>1) Download: the chunk boundaries\<close>

type_synonym datetime = int

definition timedelta :: "int \<Rightarrow> int" where
  "timedelta days = days * 86400000000"

definition chunk_size :: int where
  "chunk_size = timedelta 245"

text \<open>
  The loop of lines 24 to 30, with its two variables \<^verbatim>\<open>boundaries\<close> and \<^verbatim>\<open>t\<close>:
  \<^verbatim>\<open>while t < end_date: t_end = min(t + chunk_size, end_date);
  boundaries.append((t, t_end)); t = t_end\<close>.
\<close>

function chunk_loop ::
  "datetime \<Rightarrow> (datetime \<times> datetime) list \<Rightarrow> datetime \<Rightarrow> (datetime \<times> datetime) list" where
  "chunk_loop end_date boundaries t =
     (if t < end_date
      then (let t_end = min (t + chunk_size) end_date
            in chunk_loop end_date (boundaries @ [(t, t_end)]) t_end)
      else boundaries)"
  by pat_completeness auto
termination
  by (relation "measure (\<lambda>(end_date, boundaries, t). nat (end_date - t))")
     (auto simp: chunk_size_def timedelta_def)

declare chunk_loop.simps [simp del]

definition make_boundaries :: "datetime \<Rightarrow> datetime \<Rightarrow> (datetime \<times> datetime) list" where
  "make_boundaries start_date end_date = chunk_loop end_date [] start_date"

text \<open>The script's own dates: \<^verbatim>\<open>start_date = end_date - timedelta(days=729)\<close>.\<close>

definition script_boundaries :: "datetime \<Rightarrow> (datetime \<times> datetime) list" where
  "script_boundaries end_date = make_boundaries (end_date - timedelta 729) end_date"

subsection \<open>Floats\<close>

datatype fl = Fin real | PInf | NInf | NaN

fun fneg :: "fl \<Rightarrow> fl" where
  "fneg (Fin a) = Fin (- a)"
| "fneg PInf = NInf"
| "fneg NInf = PInf"
| "fneg NaN = NaN"

fun fadd :: "fl \<Rightarrow> fl \<Rightarrow> fl" where
  "fadd NaN y = NaN"
| "fadd x NaN = NaN"
| "fadd (Fin a) (Fin b) = Fin (a + b)"
| "fadd PInf NInf = NaN"
| "fadd NInf PInf = NaN"
| "fadd PInf y = PInf"
| "fadd NInf y = NInf"
| "fadd (Fin a) y = y"

definition fsub :: "fl \<Rightarrow> fl \<Rightarrow> fl" where
  "fsub x y = fadd x (fneg y)"

text \<open>The sign of a product or quotient with an infinite operand.\<close>

definition signed_inf :: "bool \<Rightarrow> fl" where
  "signed_inf negative = (if negative then NInf else PInf)"

fun fmul :: "fl \<Rightarrow> fl \<Rightarrow> fl" where
  "fmul NaN y = NaN"
| "fmul x NaN = NaN"
| "fmul (Fin a) (Fin b) = Fin (a * b)"
| "fmul (Fin a) PInf = (if a = 0 then NaN else signed_inf (a < 0))"
| "fmul (Fin a) NInf = (if a = 0 then NaN else signed_inf (0 < a))"
| "fmul PInf (Fin b) = (if b = 0 then NaN else signed_inf (b < 0))"
| "fmul NInf (Fin b) = (if b = 0 then NaN else signed_inf (0 < b))"
| "fmul PInf PInf = PInf"
| "fmul PInf NInf = NInf"
| "fmul NInf PInf = NInf"
| "fmul NInf NInf = PInf"

fun fdiv :: "fl \<Rightarrow> fl \<Rightarrow> fl" where
  "fdiv NaN y = NaN"
| "fdiv x NaN = NaN"
| "fdiv (Fin a) (Fin b) =
     (if b \<noteq> 0 then Fin (a / b) else if a = 0 then NaN else signed_inf (a < 0))"
| "fdiv (Fin a) y = Fin 0"
| "fdiv PInf (Fin b) = signed_inf (b < 0)"
| "fdiv NInf (Fin b) = signed_inf (0 \<le> b)"
| "fdiv x y = NaN"

fun fsqrt :: "fl \<Rightarrow> fl" where
  "fsqrt (Fin a) = (if a < 0 then NaN else Fin (sqrt a))"
| "fsqrt PInf = PInf"
| "fsqrt x = NaN"

fun isfinite :: "fl \<Rightarrow> bool" where
  "isfinite (Fin a) = True"
| "isfinite x = False"

subsection \<open>Frames\<close>

text \<open>A downloaded bar: the index (its timestamp) and the OHLCV columns.\<close>

record bar =
  ts :: datetime
  Open :: real
  High :: real
  Low :: real
  Close :: real
  Volume :: real

text \<open>A row once the three feature columns are added (\<open>range\<close> is taken in HOL).\<close>

record frow = bar +
  return :: fl
  range_col :: fl
  vol_change :: fl

text \<open>A row once the \<^verbatim>\<open>state\<close> column is added.\<close>

record srow = frow +
  state :: nat


subsection \<open>1) Download: the concatenated, sorted and deduplicated frame\<close>








subsection \<open>2) Feature engineering\<close>

text \<open>
  \<^verbatim>\<open>Series.shift(1)\<close> moves every value one row down and fills the first row with NaN;
  \<^verbatim>\<open>pct_change\<close> is \<^verbatim>\<open>data / data.shift(1) - 1\<close>. The bars' columns hold finite values,
  so the filling of missing values that some pandas versions do first changes nothing.
\<close>

definition shift :: "fl list \<Rightarrow> fl list" where
  "shift xs = (case xs of [] \<Rightarrow> [] | x # rest \<Rightarrow> NaN # butlast xs)"

definition pct_change :: "fl list \<Rightarrow> fl list" where
  "pct_change xs = map (\<lambda>(x, prev). fsub (fdiv x prev) (Fin 1)) (zip xs (shift xs))"

definition add_features :: "bar \<Rightarrow> fl \<Rightarrow> fl \<Rightarrow> fl \<Rightarrow> frow" where
  "add_features b r g v =
     \<lparr>ts = ts b, Open = Open b, High = High b, Low = Low b, Close = Close b,
      Volume = Volume b, return = r, range_col = g, vol_change = v\<rparr>"

definition feature_engineering :: "bar list \<Rightarrow> frow list" where
  "feature_engineering data =
     (let return_column = pct_change (map (\<lambda>b. Fin (Close b)) data);
          range_column = map (\<lambda>b. fdiv (fsub (Fin (High b)) (Fin (Low b))) (Fin (Close b))) data;
          vol_change_column = pct_change (map (\<lambda>b. Fin (Volume b)) data)
      in map (\<lambda>(b, r, g, v). add_features b r g v)
           (zip data (zip return_column (zip range_column vol_change_column))))"

text \<open>
  \<^verbatim>\<open>data.replace([np.inf, -np.inf], np.nan)\<close>, then
  \<^verbatim>\<open>data.dropna(subset=["return", "range", "vol_change"])\<close>.
\<close>

fun replace_inf :: "fl \<Rightarrow> fl" where
  "replace_inf PInf = NaN"
| "replace_inf NInf = NaN"
| "replace_inf x = x"

definition replace_inf_row :: "frow \<Rightarrow> frow" where
  "replace_inf_row r =
     r\<lparr>return := replace_inf (return r), range_col := replace_inf (range_col r),
       vol_change := replace_inf (vol_change r)\<rparr>"

definition notna :: "fl \<Rightarrow> bool" where
  "notna x = (x \<noteq> NaN)"

definition dropna :: "frow list \<Rightarrow> frow list" where
  "dropna df = filter (\<lambda>r. notna (return r) \<and> notna (range_col r) \<and> notna (vol_change r)) df"

definition build_features :: "bar list \<Rightarrow> frow list" where
  "build_features data = dropna (map replace_inf_row (feature_engineering data))"

subsection \<open>3) and 4) The trainer and the decoder\<close>

record config =
  n_components :: nat
  covariance_type :: string
  n_iter :: nat
  random_state :: nat

definition model_config :: config where
  "model_config =
     \<lparr>n_components = 7, covariance_type = ''full'', n_iter = 1000, random_state = 42\<rparr>"


definition add_state :: "frow \<Rightarrow> nat \<Rightarrow> srow" where
  "add_state r s =
     \<lparr>ts = ts r, Open = Open r, High = High r, Low = Low r, Close = Close r,
      Volume = Volume r, return = return r, range_col = range_col r,
      vol_change = vol_change r, state = s\<rparr>"

subsection \<open>5) The summary table\<close>

text \<open>
  \<^verbatim>\<open>groupby("state")\<close> makes one group per value that occurs in the column, in
  ascending order of the value. The aggregations skip NaN; \<^verbatim>\<open>std\<close> is the sample
  standard deviation (one degree of freedom taken), NaN for fewer than two values.
\<close>

record regime =
  label :: nat
  Mean_Return :: fl
  Volatility :: fl
  Count :: nat

definition groupby_state :: "srow list \<Rightarrow> (nat \<times> srow list) list" where
  "groupby_state data =
     map (\<lambda>k. (k, filter (\<lambda>r. state r = k) data)) (sort (remdups (map state data)))"

definition skipna :: "fl list \<Rightarrow> fl list" where
  "skipna xs = filter notna xs"

definition fsum :: "fl list \<Rightarrow> fl" where
  "fsum xs = foldl fadd (Fin 0) xs"

definition agg_mean :: "fl list \<Rightarrow> fl" where
  "agg_mean xs = (let v = skipna xs in fdiv (fsum v) (Fin (real (length v))))"

definition agg_std :: "fl list \<Rightarrow> fl" where
  "agg_std xs =
     (let v = skipna xs; n = length v; m = agg_mean xs
      in if n \<le> 1 then NaN
         else fsqrt (fdiv (fsum (map (\<lambda>x. fmul (fsub x m) (fsub x m)) v)) (Fin (real (n - 1)))))"

definition agg_count :: "fl list \<Rightarrow> nat" where
  "agg_count xs = length (skipna xs)"

definition aggregate :: "srow list \<Rightarrow> regime list" where
  "aggregate data =
     map (\<lambda>(k, g). \<lparr>label = k, Mean_Return = agg_mean (map return g),
                     Volatility = agg_std (map return g), Count = agg_count (map return g)\<rparr>)
       (groupby_state data)"

text \<open>
  \<^verbatim>\<open>sort_values("Mean_Return", ascending=False)\<close>: descending, NaN last. \<open>desc_before a b\<close>
  says that \<open>a\<close> may stand before \<open>b\<close>. The sort is modelled as a stable insertion sort
  (what the default sort kind does on a table this short).
\<close>

fun fl_le :: "fl \<Rightarrow> fl \<Rightarrow> bool" where
  "fl_le NaN y = False"
| "fl_le x NaN = False"
| "fl_le NInf y = True"
| "fl_le x PInf = True"
| "fl_le (Fin a) (Fin b) = (a \<le> b)"
| "fl_le x y = False"

definition desc_before :: "fl \<Rightarrow> fl \<Rightarrow> bool" where
  "desc_before a b = (b = NaN \<or> fl_le b a)"

fun insort_desc :: "regime \<Rightarrow> regime list \<Rightarrow> regime list" where
  "insort_desc x [] = [x]"
| "insort_desc x (y # ys) =
     (if desc_before (Mean_Return x) (Mean_Return y) then x # y # ys
      else y # insort_desc x ys)"

definition sort_values_desc :: "regime list \<Rightarrow> regime list" where
  "sort_values_desc table = foldr insort_desc table []"

definition summarize :: "srow list \<Rightarrow> regime list" where
  "summarize data = sort_values_desc (aggregate data)"

subsection \<open>The script from the downloaded frames to the summary\<close>



subsection \<open>Auxiliary notions and sample inputs\<close>


text \<open>Three bars with closes 100, 110, 99 and volumes 10, 20, 15.\<close>

definition example_bars :: "bar list" where
  "example_bars =
     [\<lparr>ts = 0, Open = 100, High = 101, Low = 99, Close = 100, Volume = 10\<rparr>,
      \<lparr>ts = 3600, Open = 100, High = 111, Low = 100, Close = 110, Volume = 20\<rparr>,
      \<lparr>ts = 7200, Open = 110, High = 110, Low = 99, Close = 99, Volume = 15\<rparr>]"

text \<open>Four bars, the second with a close of zero.\<close>

definition gappy_bars :: "bar list" where
  "gappy_bars =
     [\<lparr>ts = 0, Open = 100, High = 101, Low = 99, Close = 100, Volume = 10\<rparr>,
      \<lparr>ts = 3600, Open = 100, High = 100, Low = 0, Close = 0, Volume = 20\<rparr>,
      \<lparr>ts = 7200, Open = 0, High = 50, Low = 0, Close = 50, Volume = 30\<rparr>,
      \<lparr>ts = 10800, Open = 50, High = 55, Low = 50, Close = 55, Volume = 45\<rparr>]"




text \<open>
  The two feature rows of \<open>example_bars\<close> with the decoded path \<open>[2, 0]\<close>, as line 77
  attaches it.
\<close>

definition sparse_decoded :: "srow list" where
  "sparse_decoded = map (\<lambda>(r, s). add_state r s) (zip (build_features example_bars) [2, 0])"



section \<open>Properties\<close>

subsection \<open>The chunk boundaries\<close>

lemma chunk_size_pos: "0 < chunk_size"
  by (simp add: chunk_size_def timedelta_def)

lemma chunk_loop_acc: "chunk_loop e bs t = bs @ chunk_loop e [] t"
proof (induction "nat (e - t)" arbitrary: t bs rule: less_induct)
  case less
  show ?case
  proof (cases "t < e")
    case False
    then show ?thesis by (simp add: chunk_loop.simps)
  next
    case True
    define te where "te = min (t + chunk_size) e"
    have lt: "nat (e - te) < nat (e - t)"
      using True chunk_size_pos by (simp add: te_def min_def)
    have "chunk_loop e bs t = chunk_loop e (bs @ [(t, te)]) te"
      using True by (subst chunk_loop.simps) (simp add: te_def Let_def)
    also have "\<dots> = (bs @ [(t, te)]) @ chunk_loop e [] te"
      using less [OF lt] .
    also have "\<dots> = bs @ ([(t, te)] @ chunk_loop e [] te)" by simp
    also have "[(t, te)] @ chunk_loop e [] te = chunk_loop e [(t, te)] te"
      using less [OF lt, of "[(t, te)]"] by simp
    also have "\<dots> = chunk_loop e [] t"
      using True by (subst (2) chunk_loop.simps) (simp add: te_def Let_def)
    finally show ?thesis .
  qed
qed

lemma chunk_loop_unfold:
  "chunk_loop e [] t =
     (if t < e then (t, min (t + chunk_size) e) # chunk_loop e [] (min (t + chunk_size) e) else [])"
proof (cases "t < e")
  case True
  have "chunk_loop e [] t = chunk_loop e [(t, min (t + chunk_size) e)] (min (t + chunk_size) e)"
    using True by (subst chunk_loop.simps) (simp add: Let_def)
  then show ?thesis using True chunk_loop_acc [of e "[(t, min (t + chunk_size) e)]"] by simp
next
  case False
  then show ?thesis by (simp add: chunk_loop.simps)
qed


lemma chunk_loop_first:
  "t < e \<Longrightarrow> chunk_loop e [] t \<noteq> [] \<and> fst (hd (chunk_loop e [] t)) = t"
  by (subst (1 2) chunk_loop_unfold) simp

lemma chunk_loop_last: "t < e \<Longrightarrow> snd (last (chunk_loop e [] t)) = e"
proof (induction "nat (e - t)" arbitrary: t rule: less_induct)
  case less
  define te where "te = min (t + chunk_size) e"
  have u: "chunk_loop e [] t = (t, te) # chunk_loop e [] te"
    using less.prems by (subst chunk_loop_unfold) (simp add: te_def)
  show ?case
  proof (cases "te < e")
    case True
    have lt: "nat (e - te) < nat (e - t)"
      using less.prems chunk_size_pos by (simp add: te_def min_def)
    from less.hyps [OF lt True] chunk_loop_first [OF True] show ?thesis
      by (simp add: u)
  next
    case False
    then have "te = e" by (simp add: te_def min_def split: if_splits)
    moreover have "chunk_loop e [] e = []" by (subst chunk_loop_unfold) simp
    ultimately show ?thesis by (simp add: u)
  qed
qed

lemma chunk_loop_chain: "successively (\<lambda>a b. fst b = snd a) (chunk_loop e [] t)"
proof (induction "nat (e - t)" arbitrary: t rule: less_induct)
  case less
  show ?case
  proof (cases "t < e")
    case False
    then show ?thesis by (subst chunk_loop_unfold) simp
  next
    case True
    define te where "te = min (t + chunk_size) e"
    have u: "chunk_loop e [] t = (t, te) # chunk_loop e [] te"
      using True by (subst chunk_loop_unfold) (simp add: te_def)
    have lt: "nat (e - te) < nat (e - t)"
      using True chunk_size_pos by (simp add: te_def min_def)
    show ?thesis
    proof (cases "te < e")
      case True
      with chunk_loop_first [OF True] less.hyps [OF lt] show ?thesis
        by (cases "chunk_loop e [] te") (simp_all add: u)
    next
      case False
      then have "chunk_loop e [] te = []" by (subst chunk_loop_unfold) simp
      then show ?thesis by (simp add: u)
    qed
  qed
qed

lemma chunk_loop_widths:
  "(s, e') \<in> set (chunk_loop e [] t) \<Longrightarrow> s < e' \<and> e' - s \<le> chunk_size \<and> t \<le> s \<and> e' \<le> e"
proof (induction "nat (e - t)" arbitrary: t rule: less_induct)
  case less
  show ?case
  proof (cases "t < e")
    case False
    with less.prems show ?thesis by (subst (asm) chunk_loop_unfold) simp
  next
    case True
    define te where "te = min (t + chunk_size) e"
    have u: "chunk_loop e [] t = (t, te) # chunk_loop e [] te"
      using True by (subst chunk_loop_unfold) (simp add: te_def)
    have lt: "nat (e - te) < nat (e - t)"
      using True chunk_size_pos by (simp add: te_def min_def)
    have te: "t < te" "te - t \<le> chunk_size" "te \<le> e"
      using True chunk_size_pos by (simp_all add: te_def min_def)
    from less.prems u consider "(s, e') = (t, te)" | "(s, e') \<in> set (chunk_loop e [] te)"
      by auto
    then show ?thesis
    proof cases
      case 1
      with te show ?thesis by simp
    next
      case 2
      from less.hyps [OF lt 2] te show ?thesis by simp
    qed
  qed
qed

lemma chunk_loop_total: "t \<le> e \<Longrightarrow> (\<Sum>(s, e') \<leftarrow> chunk_loop e [] t. e' - s) = e - t"
proof (induction "nat (e - t)" arbitrary: t rule: less_induct)
  case less
  show ?case
  proof (cases "t < e")
    case False
    with less.prems show ?thesis by (subst chunk_loop_unfold) simp
  next
    case True
    define te where "te = min (t + chunk_size) e"
    have u: "chunk_loop e [] t = (t, te) # chunk_loop e [] te"
      using True by (subst chunk_loop_unfold) (simp add: te_def)
    have lt: "nat (e - te) < nat (e - t)"
      using True chunk_size_pos by (simp add: te_def min_def)
    have te: "te \<le> e" by (simp add: te_def)
    from less.hyps [OF lt te] show ?thesis by (simp add: u)
  qed
qed

lemma chunk_loop_length:
  "t \<le> e \<Longrightarrow> int (length (chunk_loop e [] t)) = (e - t + chunk_size - 1) div chunk_size"
proof (induction "nat (e - t)" arbitrary: t rule: less_induct)
  case less
  show ?case
  proof (cases "t < e")
    case False
    with less.prems have "t = e" by simp
    moreover have "chunk_loop e [] e = []" by (subst chunk_loop_unfold) simp
    ultimately show ?thesis using chunk_size_pos by (simp add: div_pos_pos_trivial)
  next
    case True
    define te where "te = min (t + chunk_size) e"
    have u: "chunk_loop e [] t = (t, te) # chunk_loop e [] te"
      using True by (subst chunk_loop_unfold) (simp add: te_def)
    have lt: "nat (e - te) < nat (e - t)"
      using True chunk_size_pos by (simp add: te_def min_def)
    have te: "te \<le> e" by (simp add: te_def)
    have ih: "int (length (chunk_loop e [] te)) = (e - te + chunk_size - 1) div chunk_size"
      using less.hyps [OF lt te] .
    show ?thesis
    proof (cases "t + chunk_size \<le> e")
      case True
      then have "te = t + chunk_size" by (simp add: te_def)
      then have a: "e - t + chunk_size - 1 = (e - te + chunk_size - 1) + 1 * chunk_size" by simp
      have "((e - te + chunk_size - 1) + 1 * chunk_size) div chunk_size =
          1 + (e - te + chunk_size - 1) div chunk_size"
        using chunk_size_pos by (intro div_mult_self1) simp
      then have "(e - t + chunk_size - 1) div chunk_size = (e - te + chunk_size - 1) div chunk_size + 1"
        by (simp only: a)
      with ih show ?thesis by (simp add: u)
    next
      case False
      then have e: "te = e" by (simp add: te_def)
      have "chunk_loop e [] e = []" by (subst chunk_loop_unfold) simp
      moreover have "(e - t + chunk_size - 1) div chunk_size = 1"
      proof -
        have a: "e - t + chunk_size - 1 = (e - t - 1) + 1 * chunk_size" by simp
        have b: "(e - t - 1) div chunk_size = 0"
          using False \<open>t < e\<close> by (simp add: div_pos_pos_trivial)
        have "((e - t - 1) + 1 * chunk_size) div chunk_size = 1 + (e - t - 1) div chunk_size"
          using chunk_size_pos by (intro div_mult_self1) simp
        then show ?thesis by (simp only: a b)
      qed
      ultimately show ?thesis by (simp add: u e)
    qed
  qed
qed

text \<open>
  Claim C10. For every \<open>start_date < end_date\<close> the chunking loop returns (the
  function is total: the distance to \<open>end_date\<close> shrinks at every turn), and its
  boundary list is a partition of the span from \<open>start_date\<close> to \<open>end_date\<close>: it
  starts at \<open>start_date\<close>, each chunk starts where the one before it ends, each chunk
  is non-empty and at most 245 days long, the last one ends at \<open>end_date\<close>, and the
  lengths add up to the whole span. The number of chunks is the span divided by 245
  days, rounded up.
\<close>

theorem chunk_boundaries_partition:
  assumes "start_date < end_date"
    and "bs = make_boundaries start_date end_date"
  shows "bs \<noteq> [] \<and> fst (hd bs) = start_date \<and> snd (last bs) = end_date
    \<and> (\<forall>i. Suc i < length bs \<longrightarrow> fst (bs ! Suc i) = snd (bs ! i))
    \<and> (\<forall>(s, e) \<in> set bs. s < e \<and> e - s \<le> timedelta 245
          \<and> start_date \<le> s \<and> e \<le> end_date)
    \<and> (\<Sum>(s, e) \<leftarrow> bs. e - s) = end_date - start_date
    \<and> int (length bs) = (end_date - start_date + timedelta 245 - 1) div timedelta 245"
proof -
  have bs: "bs = chunk_loop end_date [] start_date"
    using assms(2) by (simp add: make_boundaries_def)
  have "\<forall>i. Suc i < length bs \<longrightarrow> fst (bs ! Suc i) = snd (bs ! i)"
    using chunk_loop_chain [of end_date start_date]
    by (simp add: bs successively_conv_nth)
  moreover have "\<forall>(s, e) \<in> set bs. s < e \<and> e - s \<le> timedelta 245
      \<and> start_date \<le> s \<and> e \<le> end_date"
    using chunk_loop_widths [of _ _ end_date start_date]
    by (auto simp: bs chunk_size_def)
  moreover have "(\<Sum>(s, e) \<leftarrow> bs. e - s) = end_date - start_date"
    using chunk_loop_total [of start_date end_date] assms(1) by (simp add: bs)
  moreover have "int (length bs) = (end_date - start_date + timedelta 245 - 1) div timedelta 245"
    using chunk_loop_length [of start_date end_date] assms(1)
    by (simp add: bs chunk_size_def)
  ultimately show ?thesis
    using chunk_loop_first [OF assms(1)] chunk_loop_last [OF assms(1)]
    by (simp add: bs)
qed

theorem chunk_boundaries_partition_witness:
  "(0::int) < timedelta 729
   \<and> make_boundaries 0 (timedelta 729) =
       [(0, timedelta 245), (timedelta 245, timedelta 490), (timedelta 490, timedelta 729)]
   \<and> snd (last (make_boundaries 0 (timedelta 729))) = timedelta 729
   \<and> int (length (make_boundaries 0 (timedelta 729))) = 3"
proof -
  have h: "(0::int) < timedelta 729" by (simp add: timedelta_def)
  have v: "make_boundaries 0 (timedelta 729) =
      [(0, timedelta 245), (timedelta 245, timedelta 490), (timedelta 490, timedelta 729)]"
    by (simp add: make_boundaries_def chunk_loop_unfold chunk_size_def timedelta_def)
  have "snd (last (make_boundaries 0 (timedelta 729))) = timedelta 729
      \<and> int (length (make_boundaries 0 (timedelta 729))) =
          (timedelta 729 - 0 + timedelta 245 - 1) div timedelta 245"
    using chunk_boundaries_partition [OF h refl] by blast
  then show ?thesis using h v by (simp add: timedelta_def)
qed

text \<open>
  With the script's own dates (a span of 729 days) the loop makes three chunks, of
  245, 245 and 239 days.
\<close>

theorem script_boundaries_three_chunks:
  "script_boundaries end_date =
     [(end_date - timedelta 729, end_date - timedelta 484),
      (end_date - timedelta 484, end_date - timedelta 239),
      (end_date - timedelta 239, end_date)]"
proof -
  have 1: "chunk_loop end_date [] end_date = []"
    by (subst chunk_loop_unfold) simp
  have 2: "chunk_loop end_date [] (end_date - timedelta 239) = [(end_date - timedelta 239, end_date)]"
    by (subst chunk_loop_unfold) (simp add: 1 chunk_size_def timedelta_def)
  have 3: "chunk_loop end_date [] (end_date - timedelta 484) =
      [(end_date - timedelta 484, end_date - timedelta 239), (end_date - timedelta 239, end_date)]"
    by (subst chunk_loop_unfold) (simp add: 2 [unfolded timedelta_def, simplified] chunk_size_def timedelta_def)
  show ?thesis
    unfolding script_boundaries_def make_boundaries_def
    by (subst chunk_loop_unfold) (simp add: 3 [unfolded timedelta_def, simplified] chunk_size_def timedelta_def)
qed

subsection \<open>The deduplicated frame\<close>











subsection \<open>The feature columns\<close>

lemma length_shift: "length (shift xs) = length xs"
  by (cases xs) (simp_all add: shift_def)

lemma shift_nth:
  assumes "t < length xs"
  shows "shift xs ! t = (if t = 0 then NaN else xs ! (t - 1))"
proof (cases xs)
  case Nil
  with assms show ?thesis by simp
next
  case (Cons x rest)
  have s: "shift xs = NaN # butlast xs"
    by (simp add: shift_def Cons)
  show ?thesis
  proof (cases t)
    case 0
    then show ?thesis by (simp add: s)
  next
    case (Suc n)
    with assms have "n < length (butlast xs)" by simp
    then show ?thesis by (simp add: s Suc nth_butlast)
  qed
qed

lemma length_pct_change: "length (pct_change xs) = length xs"
  by (simp add: pct_change_def length_shift)

lemma pct_change_nth:
  "t < length xs \<Longrightarrow>
   pct_change xs ! t = (if t = 0 then NaN else fsub (fdiv (xs ! t) (xs ! (t - 1))) (Fin 1))"
  by (cases "xs ! t") (simp_all add: pct_change_def length_shift shift_nth fsub_def)

lemma length_feature_engineering: "length (feature_engineering data) = length data"
  by (simp add: feature_engineering_def Let_def length_pct_change)

lemma feature_engineering_nth:
  "t < length data \<Longrightarrow>
   feature_engineering data ! t =
     add_features (data ! t)
       (if t = 0 then NaN
        else fsub (fdiv (Fin (Close (data ! t))) (Fin (Close (data ! (t - 1))))) (Fin 1))
       (fdiv (fsub (Fin (High (data ! t))) (Fin (Low (data ! t)))) (Fin (Close (data ! t))))
       (if t = 0 then NaN
        else fsub (fdiv (Fin (Volume (data ! t))) (Fin (Volume (data ! (t - 1))))) (Fin 1))"
  by (simp add: feature_engineering_def Let_def length_pct_change pct_change_nth)


lemma replace_inf_pct:
  "replace_inf (fsub (fdiv (Fin a) (Fin b)) (Fin 1)) = (if b \<noteq> 0 then Fin (a / b - 1) else NaN)"
  by (simp add: fsub_def signed_inf_def)

lemma replace_inf_range:
  "replace_inf (fdiv (fsub (Fin h) (Fin l)) (Fin c)) = (if c \<noteq> 0 then Fin ((h - l) / c) else NaN)"
  by (simp add: fsub_def signed_inf_def)

lemma feature_engineering_upt:
  "feature_engineering data = map (\<lambda>t. feature_engineering data ! t) [0..<length data]"
  using map_nth [of "feature_engineering data"] by (simp add: length_feature_engineering)

lemma kept_row_0:
  assumes "0 < length data"
  shows "\<not> notna (return (replace_inf_row (feature_engineering data ! 0)))"
  using assms by (simp add: feature_engineering_nth replace_inf_row_def add_features_def notna_def)

lemma kept_row_iff:
  assumes "0 < t" "t < length data"
  shows "(notna (return (replace_inf_row (feature_engineering data ! t)))
      \<and> notna (range_col (replace_inf_row (feature_engineering data ! t)))
      \<and> notna (vol_change (replace_inf_row (feature_engineering data ! t))))
    = (Close (data ! (t - 1)) \<noteq> 0 \<and> Close (data ! t) \<noteq> 0 \<and> Volume (data ! (t - 1)) \<noteq> 0)"
  using assms
  by (simp add: feature_engineering_nth replace_inf_row_def add_features_def notna_def
      replace_inf_pct replace_inf_range del: fdiv.simps)

lemma kept_row_value:
  assumes "0 < t" "t < length data"
    and "Close (data ! (t - 1)) \<noteq> 0" "Close (data ! t) \<noteq> 0" "Volume (data ! (t - 1)) \<noteq> 0"
  shows "replace_inf_row (feature_engineering data ! t) =
     add_features (data ! t)
       (Fin (Close (data ! t) / Close (data ! (t - 1)) - 1))
       (Fin ((High (data ! t) - Low (data ! t)) / Close (data ! t)))
       (Fin (Volume (data ! t) / Volume (data ! (t - 1)) - 1))"
  using assms
  by (simp add: feature_engineering_nth replace_inf_row_def add_features_def
      replace_inf_pct replace_inf_range del: fdiv.simps)

lemma build_features_eq:
  "build_features data =
     map (\<lambda>t. add_features (data ! t)
             (Fin (Close (data ! t) / Close (data ! (t - 1)) - 1))
             (Fin ((High (data ! t) - Low (data ! t)) / Close (data ! t)))
             (Fin (Volume (data ! t) / Volume (data ! (t - 1)) - 1)))
       (filter (\<lambda>t. Close (data ! (t - 1)) \<noteq> 0 \<and> Close (data ! t) \<noteq> 0
                  \<and> Volume (data ! (t - 1)) \<noteq> 0)
          [1..<length data])"
  (is "_ = map ?row (filter ?ok _)")
proof -
  define keep where "keep t = (notna (return (replace_inf_row (feature_engineering data ! t)))
      \<and> notna (range_col (replace_inf_row (feature_engineering data ! t)))
      \<and> notna (vol_change (replace_inf_row (feature_engineering data ! t))))" for t
  have "build_features data =
      dropna (map (\<lambda>t. replace_inf_row (feature_engineering data ! t)) [0..<length data])"
  proof -
    have "map replace_inf_row (feature_engineering data) =
        map replace_inf_row (map (\<lambda>t. feature_engineering data ! t) [0..<length data])"
      using feature_engineering_upt [of data] by simp
    then show ?thesis by (simp add: build_features_def o_def)
  qed
  also have "\<dots> = map (\<lambda>t. replace_inf_row (feature_engineering data ! t))
      (filter keep [0..<length data])"
    by (simp add: dropna_def filter_map o_def keep_def [abs_def])
  also have "filter keep [0..<length data] = filter keep [1..<length data]"
  proof (cases "length data")
    case 0
    then show ?thesis by simp
  next
    case (Suc n)
    then have k: "\<not> keep 0" using kept_row_0 [of data] by (simp add: keep_def)
    have "[0..<length data] = 0 # [1..<length data]"
      using upt_conv_Cons [of 0 "length data"] Suc by simp
    then have "filter keep [0..<length data] = filter keep (0 # [1..<length data])"
      by (rule arg_cong)
    with k show ?thesis by simp
  qed
  also have "filter keep [1..<length data] = filter ?ok [1..<length data]"
    by (rule filter_cong [OF refl]) (simp add: keep_def kept_row_iff)
  also have "map (\<lambda>t. replace_inf_row (feature_engineering data ! t)) (filter ?ok [1..<length data])
      = map ?row (filter ?ok [1..<length data])"
    by (rule map_cong [OF refl]) (simp add: kept_row_value)
  finally show ?thesis .
qed

text \<open>
  The feature builder as a whole: its output is the list of the rows \<open>t \<ge> 1\<close> whose
  three divisors (the previous close, the close, the previous volume) are not zero, in
  index order, each with the finite values of the three formulas.
\<close>

theorem feature_builder_output:
  "build_features bars =
     map (\<lambda>t. add_features (bars ! t)
             (Fin (Close (bars ! t) / Close (bars ! (t - 1)) - 1))
             (Fin ((High (bars ! t) - Low (bars ! t)) / Close (bars ! t)))
             (Fin (Volume (bars ! t) / Volume (bars ! (t - 1)) - 1)))
       (filter (\<lambda>t. Close (bars ! (t - 1)) \<noteq> 0 \<and> Close (bars ! t) \<noteq> 0
                  \<and> Volume (bars ! (t - 1)) \<noteq> 0)
          [1..<length bars])"
  by (rule build_features_eq)


lemma upt_1_3: "[1..<3] = [1, 2::nat]"
  by (simp add: upt_rec)



lemma build_features_tl:
  "build_features bars = dropna (map replace_inf_row (tl (feature_engineering bars)))"
proof (cases bars)
  case Nil
  then show ?thesis
    by (simp add: build_features_def feature_engineering_def pct_change_def shift_def)
next
  case (Cons b rest)
  then have n: "0 < length bars" by simp
  then have "feature_engineering bars \<noteq> []"
    using length_feature_engineering [of bars] by auto
  then have fe: "feature_engineering bars =
      feature_engineering bars ! 0 # tl (feature_engineering bars)"
    by (simp add: hd_conv_nth [symmetric])
  have "build_features bars = dropna (map replace_inf_row
      (feature_engineering bars ! 0 # tl (feature_engineering bars)))"
    using fe by (simp add: build_features_def)
  then show ?thesis
    using kept_row_0 [OF n] by (simp add: dropna_def)
qed

text \<open>
  Claim C4. Every row the feature builder returns has a finite return, range and
  volume change, and is the row of a bar that has a predecessor: the row of the first
  bar is never in the output, which is computed from the rows after the first and so
  has at most one row fewer than there are bars.
\<close>

theorem build_features_finite:
  "(\<forall>r \<in> set (build_features bars).
      isfinite (return r) \<and> isfinite (range_col r) \<and> isfinite (vol_change r)
      \<and> (\<exists>t. 0 < t \<and> t < length bars
             \<and> r = replace_inf_row (feature_engineering bars ! t)))
   \<and> build_features bars = dropna (map replace_inf_row (tl (feature_engineering bars)))
   \<and> length (build_features bars) \<le> length bars - 1"
proof -
  have rows: "isfinite (return r) \<and> isfinite (range_col r) \<and> isfinite (vol_change r)
      \<and> (\<exists>t. 0 < t \<and> t < length bars \<and> r = replace_inf_row (feature_engineering bars ! t))"
    if "r \<in> set (build_features bars)" for r
  proof -
    from that have "\<exists>t. (0 < t \<and> t < length bars)
      \<and> (Close (bars ! (t - 1)) \<noteq> 0 \<and> Close (bars ! t) \<noteq> 0
          \<and> Volume (bars ! (t - 1)) \<noteq> 0)
      \<and> r = add_features (bars ! t)
         (Fin (Close (bars ! t) / Close (bars ! (t - 1)) - 1))
         (Fin ((High (bars ! t) - Low (bars ! t)) / Close (bars ! t)))
         (Fin (Volume (bars ! t) / Volume (bars ! (t - 1)) - 1))"
      by (subst (asm) build_features_eq) (force simp: Suc_le_eq)
    then obtain t where t: "0 < t" "t < length bars"
      and ok: "Close (bars ! (t - 1)) \<noteq> 0" "Close (bars ! t) \<noteq> 0"
        "Volume (bars ! (t - 1)) \<noteq> 0"
      and r: "r = add_features (bars ! t)
         (Fin (Close (bars ! t) / Close (bars ! (t - 1)) - 1))
         (Fin ((High (bars ! t) - Low (bars ! t)) / Close (bars ! t)))
         (Fin (Volume (bars ! t) / Volume (bars ! (t - 1)) - 1))"
      by blast
    have "r = replace_inf_row (feature_engineering bars ! t)"
      using kept_row_value [OF t ok] r by simp
    moreover have "isfinite (return r) \<and> isfinite (range_col r) \<and> isfinite (vol_change r)"
      by (simp add: r add_features_def)
    ultimately show ?thesis using t by blast
  qed
  have "length (build_features bars) \<le> length (tl (feature_engineering bars))"
    by (subst build_features_tl) (simp add: dropna_def order_trans [OF length_filter_le])
  then have len: "length (build_features bars) \<le> length bars - 1"
    by (simp add: length_feature_engineering)
  from rows build_features_tl [of bars] len show ?thesis by blast
qed

theorem build_features_finite_witness:
  "build_features gappy_bars =
     [\<lparr>ts = 10800, Open = 50, High = 55, Low = 50, Close = 55, Volume = 45,
       return = Fin (1 / 10), range_col = Fin (1 / 11), vol_change = Fin (1 / 2)\<rparr>]
   \<and> (\<exists>r. r \<in> set (build_features gappy_bars)
        \<and> isfinite (return r) \<and> isfinite (range_col r) \<and> isfinite (vol_change r))
   \<and> length (build_features gappy_bars) \<le> length gappy_bars - 1"
proof -
  have v: "build_features gappy_bars =
     [\<lparr>ts = 10800, Open = 50, High = 55, Low = 50, Close = 55, Volume = 45,
       return = Fin (1 / 10), range_col = Fin (1 / 11), vol_change = Fin (1 / 2)\<rparr>]"
    by (simp add: build_features_eq gappy_bars_def upt_rec add_features_def)
  then have m: "\<lparr>ts = 10800, Open = 50, High = 55, Low = 50, Close = 55, Volume = 45,
       return = Fin (1 / 10), range_col = Fin (1 / 11), vol_change = Fin (1 / 2)\<rparr>
     \<in> set (build_features gappy_bars)"
    by simp
  from build_features_finite [of gappy_bars] m
  have "\<exists>r. r \<in> set (build_features gappy_bars)
        \<and> isfinite (return r) \<and> isfinite (range_col r) \<and> isfinite (vol_change r)"
    by blast
  moreover from build_features_finite [of gappy_bars]
  have "length (build_features gappy_bars) \<le> length gappy_bars - 1"
    by blast
  ultimately show ?thesis using v by blast
qed

subsection \<open>The summary table\<close>












lemma labels_aggregate: "map label (aggregate rows) = sort (remdups (map state rows))"
  by (simp add: aggregate_def groupby_state_def o_def)


lemma set_insort_desc: "set (insort_desc x xs) = insert x (set xs)"
  by (induction xs) auto

lemma set_sort_values_desc: "set (sort_values_desc xs) = set xs"
  by (induction xs) (simp_all add: sort_values_desc_def set_insort_desc)

lemma length_insort_desc: "length (insort_desc x xs) = Suc (length xs)"
  by (induction xs) simp_all

lemma length_sort_values_desc: "length (sort_values_desc xs) = length xs"
  by (induction xs) (simp_all add: sort_values_desc_def length_insort_desc)

lemma distinct_insort_desc:
  "distinct (map label (insort_desc x xs)) =
     (label x \<notin> label ` set xs \<and> distinct (map label xs))"
  by (induction xs) (auto simp: set_insort_desc)

lemma distinct_sort_values_desc:
  "distinct (map label (sort_values_desc xs)) = distinct (map label xs)"
  by (induction xs)
    (simp_all add: sort_values_desc_def distinct_insort_desc
      set_sort_values_desc [unfolded sort_values_desc_def])





lemma set_summarize: "set (summarize rows) = set (aggregate rows)"
  by (simp add: summarize_def set_sort_values_desc)

lemma labels_summarize: "set (map label (summarize rows)) = state ` set rows"
proof -
  have "set (map label (summarize rows)) = set (map label (aggregate rows))"
    by (simp add: set_summarize)
  then show ?thesis by (simp add: labels_aggregate)
qed

lemma distinct_labels_summarize: "distinct (map label (summarize rows))"
  by (simp add: summarize_def distinct_sort_values_desc labels_aggregate)

text \<open>
  Claim C2, as the code has it. The summary has exactly one entry for every state
  label that occurs in the decoded path and none for any other label: a state with
  no assigned observation is left out of the table.
\<close>

theorem summary_labels_occurring:
  "set (map label (summarize rows)) = state ` set rows
   \<and> distinct (map label (summarize rows))
   \<and> length (summarize rows) = card (state ` set rows)"
proof -
  have "length (summarize rows) = length (map label (summarize rows))" by simp
  also have "\<dots> = card (set (map label (summarize rows)))"
    using distinct_labels_summarize [of rows] by (simp only: distinct_card)
  finally show ?thesis
    using labels_summarize [of rows] distinct_labels_summarize [of rows] by simp
qed

text \<open>
  Claim C2, as the spec states it, fails on the code. With the seven states of the
  script and a decoded path that visits only the states 2 and 0, the summary has the
  two entries of these states: state 1 (like 3, 4, 5 and 6) has no entry at all, where
  the claim asks for one with an empty count.
\<close>

theorem summary_omits_absent_states:
  "map state sparse_decoded = [2, 0]
   \<and> map label (summarize sparse_decoded) = [2, 0]
   \<and> 1 \<notin> set (map label (summarize sparse_decoded))
   \<and> n_components model_config = 7"
proof -
  have "map label (summarize sparse_decoded) = [2, 0]"
    by (simp add: sparse_decoded_def build_features_eq example_bars_def upt_1_3 add_features_def
        add_state_def summarize_def aggregate_def groupby_state_def sort_values_desc_def
        agg_mean_def skipna_def notna_def fsum_def desc_before_def)
  moreover have "map state sparse_decoded = [2, 0]"
    by (simp add: sparse_decoded_def build_features_eq example_bars_def upt_1_3 add_features_def
        add_state_def)
  ultimately show ?thesis by (simp add: model_config_def)
qed




subsection \<open>The trainer's configuration and the run as a whole\<close>







end
